theory Spec2Isabelle
  imports Main "HOL-Library.AList"
begin

section \<open>The index scheme of a relation (catalog/IndexScheme.hpp)\<close>

subsection \<open>Data model\<close>

text \<open>
  Modelled from the spec: the message type \<open>IndexSubBlockDescription\<close> is declared in a
  protocol buffer file that is not part of the sources at hand. The specification
  describes it as a structural type tag (the sub-block type) together with
  implementation-specific parameters. The header only ever reads \<open>sub_block_type()\<close>,
  so both the type of the tag and the type of the remaining parameters are left as
  type parameters.
\<close>

record ('t, 'p) IndexSubBlockDescription =
  sub_block_type :: 't
  parameters :: 'p

text \<open>
  The class \<open>IndexScheme\<close> has the single member \<open>index_map_\<close>, a
  \<open>std::unordered_map\<close> from index names to vectors of descriptions. It is embedded as
  an association list in iteration order. A hash map holds each key at most once; the
  predicate \<open>unique_keys\<close> says so for the list. The order in which a hash map
  enumerates its entries is not fixed by the container; the results below are stated
  through lookups, the size and the outcome of scans, none of which depends on it.
\<close>

record ('t, 'p) IndexScheme =
  index_map :: "(string \<times> ('t, 'p) IndexSubBlockDescription list) list"

definition unique_keys :: "('t, 'p) IndexScheme \<Rightarrow> bool" where
  "unique_keys s = distinct (map fst (index_map s))"

text \<open>The constructor \<open>IndexScheme()\<close> leaves the map empty.\<close>

definition IndexScheme_new :: "('t, 'p) IndexScheme" where
  "IndexScheme_new = \<lparr>index_map = []\<rparr>"

subsection \<open>Queries\<close>

text \<open>\<open>getNumIndices\<close> returns \<open>index_map_.size()\<close>.\<close>

definition getNumIndices :: "('t, 'p) IndexScheme \<Rightarrow> nat" where
  "getNumIndices s = length (index_map s)"

text \<open>\<open>hasIndexWithName\<close> returns \<open>index_map_.find(index_name) != index_map_.end()\<close>.\<close>

definition hasIndexWithName :: "('t, 'p) IndexScheme \<Rightarrow> string \<Rightarrow> bool" where
  "hasIndexWithName s index_name = (map_of (index_map s) index_name \<noteq> None)"

text \<open>
  \<open>areIndexDescriptionsSimilar\<close> returns false when the two sub-block types differ and
  true otherwise; the comparison of attribute ids is left as a TODO in the source.
\<close>

definition areIndexDescriptionsSimilar ::
  "('t, 'p) IndexSubBlockDescription \<Rightarrow> ('t, 'p) IndexSubBlockDescription \<Rightarrow> bool" where
  "areIndexDescriptionsSimilar desc_a desc_b =
     (if sub_block_type desc_a \<noteq> sub_block_type desc_b then False else True)"

text \<open>
  \<open>hasIndexWithDescription\<close> is two nested loops with an early return: the inner loop
  walks one vector of descriptions, the outer loop walks the entries of the map.
\<close>

fun scan_descriptions ::
  "('t, 'p) IndexSubBlockDescription list \<Rightarrow> ('t, 'p) IndexSubBlockDescription \<Rightarrow> bool" where
  "scan_descriptions [] index_description = False"
| "scan_descriptions (d # ds) index_description =
     (if areIndexDescriptionsSimilar d index_description then True
      else scan_descriptions ds index_description)"

fun scan_entries ::
  "(string \<times> ('t, 'p) IndexSubBlockDescription list) list
     \<Rightarrow> ('t, 'p) IndexSubBlockDescription \<Rightarrow> bool" where
  "scan_entries [] index_description = False"
| "scan_entries (e # es) index_description =
     (if scan_descriptions (snd e) index_description then True
      else scan_entries es index_description)"

definition hasIndexWithDescription ::
  "('t, 'p) IndexScheme \<Rightarrow> ('t, 'p) IndexSubBlockDescription \<Rightarrow> bool" where
  "hasIndexWithDescription s index_description =
     scan_entries (index_map s) index_description"

subsection \<open>Registration\<close>

text \<open>
  The copy loop of \<open>addIndexMapEntry\<close>: for \<open>i\<close> from \<open>0\<close> while
  \<open>i < index_descriptions.size()\<close>, the element at \<open>i\<close> is appended to the fresh vector.
\<close>

function copy_descriptions ::
  "('t, 'p) IndexSubBlockDescription list \<Rightarrow> nat
     \<Rightarrow> ('t, 'p) IndexSubBlockDescription list \<Rightarrow> ('t, 'p) IndexSubBlockDescription list" where
  "copy_descriptions index_descriptions i acc =
     (if i < length index_descriptions
      then copy_descriptions index_descriptions (Suc i) (acc @ [index_descriptions ! i])
      else acc)"
  by pat_completeness auto
termination
  by (relation "measure (\<lambda>(ds, i, acc). length ds - i)") auto

declare copy_descriptions.simps [simp del]

text \<open>
  \<open>addIndexMapEntry\<close> returns false without touching the map when the name is found;
  otherwise it assigns the copied vector to \<open>index_map_[index_name]\<close> and returns true.
  The subscript assignment of the map inserts a missing key and overwrites a present
  one, which is what \<open>AList.update\<close> does. The result is the returned flag paired
  with the scheme after the call.
\<close>

definition addIndexMapEntry ::
  "('t, 'p) IndexScheme \<Rightarrow> string \<Rightarrow> ('t, 'p) IndexSubBlockDescription list
     \<Rightarrow> bool \<times> ('t, 'p) IndexScheme" where
  "addIndexMapEntry s index_name index_descriptions =
     (if map_of (index_map s) index_name \<noteq> None then (False, s)
      else (True,
            s\<lparr>index_map :=
                AList.update index_name (copy_descriptions index_descriptions 0 [])
                  (index_map s)\<rparr>))"

text \<open>
  A finite sequence of registration calls, run in order on a scheme: the flags returned
  by the calls, and the scheme after the last call.
\<close>

fun register_all ::
  "('t, 'p) IndexScheme \<Rightarrow> (string \<times> ('t, 'p) IndexSubBlockDescription list) list
     \<Rightarrow> bool list \<times> ('t, 'p) IndexScheme" where
  "register_all s [] = ([], s)"
| "register_all s (c # cs) =
     (let r = addIndexMapEntry s (fst c) (snd c);
          rs = register_all (snd r) cs
      in (fst r # fst rs, snd rs))"

text \<open>The names of the calls in a sequence that returned true, in call order.\<close>

definition succeeded_names ::
  "('t, 'p) IndexScheme \<Rightarrow> (string \<times> ('t, 'p) IndexSubBlockDescription list) list
     \<Rightarrow> string list" where
  "succeeded_names s cs =
     map (fst \<circ> fst) (filter snd (zip cs (fst (register_all s cs))))"

subsection \<open>Serialization\<close>

text \<open>
  Modelled from the spec: \<open>getProto\<close> and \<open>ReconstructFromProto\<close> are only declared in
  the header; their bodies are not part of the sources at hand. The specification
  describes the persisted record as one repeated field whose elements hold an index
  name and a repeated list of description sub-records. Serialization emits, for every
  (name, sequence) pair, the name and each description in stored order.
  Deserialization starts from an empty scheme, which is mutated only through
  registration, and takes the pairs of the record in record order.
\<close>

record ('t, 'p) IndexEntry_proto =
  index_name :: string
  index_description :: "('t, 'p) IndexSubBlockDescription list"

record ('t, 'p) IndexScheme_proto =
  index_entries :: "('t, 'p) IndexEntry_proto list"

definition getProto :: "('t, 'p) IndexScheme \<Rightarrow> ('t, 'p) IndexScheme_proto" where
  "getProto s =
     \<lparr>index_entries =
        map (\<lambda>e. \<lparr>index_name = fst e, index_description = snd e\<rparr>) (index_map s)\<rparr>"

definition ReconstructFromProto :: "('t, 'p) IndexScheme_proto \<Rightarrow> ('t, 'p) IndexScheme" where
  "ReconstructFromProto proto =
     snd (register_all IndexScheme_new
            (map (\<lambda>e. (index_name e, index_description e)) (index_entries proto)))"

section \<open>Auxiliary facts\<close>

lemma copy_descriptions_from:
  "i \<le> length ds \<Longrightarrow> copy_descriptions ds i acc = acc @ drop i ds"
proof (induction ds i acc rule: copy_descriptions.induct)
  case (1 ds i acc)
  show ?case
  proof (cases "i < length ds")
    case True
    then have "copy_descriptions ds i acc = copy_descriptions ds (Suc i) (acc @ [ds ! i])"
      by (subst copy_descriptions.simps) simp
    also have "\<dots> = (acc @ [ds ! i]) @ drop (Suc i) ds"
      using True "1.IH" by simp
    also have "\<dots> = acc @ drop i ds"
      using True by (simp add: Cons_nth_drop_Suc)
    finally show ?thesis .
  next
    case False
    with "1.prems" have "i = length ds" by simp
    then show ?thesis
      by (subst copy_descriptions.simps) simp
  qed
qed

lemma copy_descriptions_id: "copy_descriptions ds 0 [] = ds"
  by (simp add: copy_descriptions_from)

lemma scan_descriptions_iff:
  "scan_descriptions ds c = (\<exists>d \<in> set ds. areIndexDescriptionsSimilar d c)"
  by (induction ds) auto

lemma scan_entries_iff:
  "scan_entries es c = (\<exists>e \<in> set es. \<exists>d \<in> set (snd e). areIndexDescriptionsSimilar d c)"
  by (induction es) (auto simp: scan_descriptions_iff)

lemma similar_iff:
  "areIndexDescriptionsSimilar a b = (sub_block_type a = sub_block_type b)"
  by (simp add: areIndexDescriptionsSimilar_def)

lemma update_fresh: "map_of al k = None \<Longrightarrow> AList.update k v al = al @ [(k, v)]"
  by (induction al) (auto split: if_splits)

lemma add_present:
  "hasIndexWithName s n \<Longrightarrow> addIndexMapEntry s n d = (False, s)"
  by (simp add: addIndexMapEntry_def hasIndexWithName_def)

lemma add_fresh:
  "\<not> hasIndexWithName s n \<Longrightarrow>
     addIndexMapEntry s n d = (True, s\<lparr>index_map := index_map s @ [(n, d)]\<rparr>)"
  by (simp add: addIndexMapEntry_def hasIndexWithName_def copy_descriptions_id update_fresh)

lemma add_fresh_lookup:
  "\<not> hasIndexWithName s n \<Longrightarrow>
     map_of (index_map (snd (addIndexMapEntry s n d))) = (map_of (index_map s))(n \<mapsto> d)"
  by (simp add: addIndexMapEntry_def hasIndexWithName_def copy_descriptions_id update_conv')

lemma add_fresh_has:
  "\<not> hasIndexWithName s n \<Longrightarrow> hasIndexWithName (snd (addIndexMapEntry s n d)) n"
  by (simp add: hasIndexWithName_def [of "snd (addIndexMapEntry s n d)"] add_fresh_lookup)

lemma add_flag: "fst (addIndexMapEntry s n d) = (\<not> hasIndexWithName s n)"
  by (simp add: addIndexMapEntry_def hasIndexWithName_def)

lemma add_lookup_other:
  "map_of (index_map s) k = Some v \<Longrightarrow> map_of (index_map (snd (addIndexMapEntry s n d))) k = Some v"
  by (cases "hasIndexWithName s n") (auto simp: add_present add_fresh hasIndexWithName_def)

lemma add_unique_keys:
  "unique_keys s \<Longrightarrow> unique_keys (snd (addIndexMapEntry s n d))"
  by (cases "hasIndexWithName s n")
     (auto simp: add_present add_fresh hasIndexWithName_def unique_keys_def map_of_eq_None_iff)

lemma register_all_lookup:
  "map_of (index_map s) k = Some v \<Longrightarrow> map_of (index_map (snd (register_all s cs))) k = Some v"
  by (induction cs arbitrary: s) (auto simp: Let_def add_lookup_other)

lemma register_all_unique_keys:
  "unique_keys s \<Longrightarrow> unique_keys (snd (register_all s cs))"
  by (induction cs arbitrary: s) (auto simp: Let_def add_unique_keys)

lemma add_scan_mono:
  "hasIndexWithDescription s c \<Longrightarrow> hasIndexWithDescription (snd (addIndexMapEntry s n d)) c"
  by (cases "hasIndexWithName s n")
     (auto simp: add_present add_fresh hasIndexWithDescription_def scan_entries_iff)

lemma register_all_scan_mono:
  "hasIndexWithDescription s c \<Longrightarrow> hasIndexWithDescription (snd (register_all s cs)) c"
  by (induction cs arbitrary: s) (auto simp: Let_def add_scan_mono)

lemma succeeded_names_Nil: "succeeded_names s [] = []"
  by (simp add: succeeded_names_def)

lemma succeeded_names_Cons:
  "succeeded_names s (c # cs) =
     (if hasIndexWithName s (fst c) then succeeded_names s cs
      else fst c # succeeded_names (snd (addIndexMapEntry s (fst c) (snd c))) cs)"
  by (simp add: succeeded_names_def Let_def add_flag add_present)

lemma register_all_keys:
  "map fst (index_map (snd (register_all s cs))) = map fst (index_map s) @ succeeded_names s cs"
proof (induction cs arbitrary: s)
  case Nil
  show ?case by (simp add: succeeded_names_Nil)
next
  case (Cons c cs)
  show ?case
  proof (cases "hasIndexWithName s (fst c)")
    case True
    then show ?thesis
      using Cons.IH [of s] by (simp add: Let_def add_present succeeded_names_Cons)
  next
    case False
    then show ?thesis
      using Cons.IH [of "snd (addIndexMapEntry s (fst c) (snd c))"]
      by (simp add: Let_def succeeded_names_Cons add_fresh)
  qed
qed

lemma register_all_append:
  "distinct (map fst (index_map s @ es)) \<Longrightarrow>
     snd (register_all s es) = s\<lparr>index_map := index_map s @ es\<rparr>"
proof (induction es arbitrary: s)
  case Nil
  show ?case by simp
next
  case (Cons e es)
  from Cons.prems have fresh: "\<not> hasIndexWithName s (fst e)"
    by (auto simp: hasIndexWithName_def map_of_eq_None_iff)
  let ?s' = "s\<lparr>index_map := index_map s @ [(fst e, snd e)]\<rparr>"
  from Cons.prems have "distinct (map fst (index_map ?s' @ es))" by simp
  from Cons.IH [OF this] fresh show ?case
    by (simp add: Let_def add_fresh)
qed

lemma roundtrip_unique:
  "unique_keys s \<Longrightarrow> ReconstructFromProto (getProto s) = s"
  using register_all_append [of IndexScheme_new "index_map s"]
  by (simp add: ReconstructFromProto_def getProto_def unique_keys_def IndexScheme_new_def o_def)

lemma unique_keys_lookup:
  "unique_keys s \<Longrightarrow> (map_of (index_map s) n = Some ds) = ((n, ds) \<in> set (index_map s))"
  by (auto simp: unique_keys_def dest: map_of_SomeD)

section \<open>Serialization round trip\<close>

text \<open>
  C1. Take the scheme reached from a fresh one by any finite sequence of registration
  calls (in particular by calls that all succeed). Serializing it with \<open>getProto\<close> and
  reconstructing the result with \<open>ReconstructFromProto\<close> gives a scheme with the same
  mapping: every name looks up to the same sequence of descriptions, in the same order,
  or is absent in both; the same names are present and the number of names is the same.
\<close>

theorem roundtrip_same_mapping:
  "map_of (index_map (ReconstructFromProto (getProto (snd (register_all IndexScheme_new cs)))))
     = map_of (index_map (snd (register_all IndexScheme_new cs)))
   \<and> hasIndexWithName (ReconstructFromProto (getProto (snd (register_all IndexScheme_new cs)))) n
     = hasIndexWithName (snd (register_all IndexScheme_new cs)) n
   \<and> getNumIndices (ReconstructFromProto (getProto (snd (register_all IndexScheme_new cs))))
     = getNumIndices (snd (register_all IndexScheme_new cs))"
proof -
  have "unique_keys (IndexScheme_new :: ('a, 'b) IndexScheme)"
    by (simp add: unique_keys_def IndexScheme_new_def)
  then have "unique_keys (snd (register_all (IndexScheme_new :: ('a, 'b) IndexScheme) cs))"
    by (rule register_all_unique_keys)
  then show ?thesis
    by (simp add: roundtrip_unique)
qed

text \<open>
  The round trip evaluated on a scheme with two names, one of them holding two
  descriptions; the second call of the sequence fails and leaves no trace.
\<close>

theorem roundtrip_same_mapping_witness:
  "map_of (index_map (ReconstructFromProto (getProto
      (snd (register_all (IndexScheme_new :: (nat, nat list) IndexScheme)
         [(''idx1'', [\<lparr>sub_block_type = 0, parameters = [1]\<rparr>]),
          (''idx1'', [\<lparr>sub_block_type = 1, parameters = [2]\<rparr>]),
          (''idx2'', [\<lparr>sub_block_type = 1, parameters = [3]\<rparr>,
                      \<lparr>sub_block_type = 0, parameters = []\<rparr>])]))))) ''idx2''
     = Some [\<lparr>sub_block_type = 1, parameters = [3]\<rparr>, \<lparr>sub_block_type = 0, parameters = []\<rparr>]
   \<and> getNumIndices (ReconstructFromProto (getProto
      (snd (register_all (IndexScheme_new :: (nat, nat list) IndexScheme)
         [(''idx1'', [\<lparr>sub_block_type = 0, parameters = [1]\<rparr>]),
          (''idx1'', [\<lparr>sub_block_type = 1, parameters = [2]\<rparr>]),
          (''idx2'', [\<lparr>sub_block_type = 1, parameters = [3]\<rparr>,
                      \<lparr>sub_block_type = 0, parameters = []\<rparr>])])))) = 2"
  using roundtrip_same_mapping
    [of "[(''idx1'', [\<lparr>sub_block_type = 0::nat, parameters = [1::nat]\<rparr>]),
          (''idx1'', [\<lparr>sub_block_type = 1, parameters = [2]\<rparr>]),
          (''idx2'', [\<lparr>sub_block_type = 1, parameters = [3]\<rparr>,
                      \<lparr>sub_block_type = 0, parameters = []\<rparr>])]" "''idx2''"]
  by (simp add: addIndexMapEntry_def IndexScheme_new_def getNumIndices_def
        copy_descriptions_id Let_def)

section \<open>Name uniqueness\<close>

text \<open>
  C2. If the name is already a key, \<open>addIndexMapEntry\<close> returns false and the scheme
  is returned as it was. If the name is not yet a key, the call returns true and the
  mapping afterwards is the old one with the whole sequence installed under the name.
  Hence after a successful registration of \<open>d1\<close> under \<open>n\<close>, a second registration
  of \<open>d2\<close> under \<open>n\<close> returns false, changes nothing, and \<open>n\<close> still maps to \<open>d1\<close>.
\<close>

theorem add_name_unique:
  "(hasIndexWithName s n \<longrightarrow> addIndexMapEntry s n d2 = (False, s))
   \<and> (\<not> hasIndexWithName s n \<longrightarrow>
        fst (addIndexMapEntry s n d2)
        \<and> map_of (index_map (snd (addIndexMapEntry s n d2))) = (map_of (index_map s))(n \<mapsto> d2))
   \<and> (fst (addIndexMapEntry s n d1) \<longrightarrow>
        addIndexMapEntry (snd (addIndexMapEntry s n d1)) n d2
          = (False, snd (addIndexMapEntry s n d1))
        \<and> map_of (index_map (snd (addIndexMapEntry (snd (addIndexMapEntry s n d1)) n d2))) n
          = Some d1)"
proof (intro conjI impI)
  assume "hasIndexWithName s n"
  then show "addIndexMapEntry s n d2 = (False, s)" by (rule add_present)
next
  assume "\<not> hasIndexWithName s n"
  then show "fst (addIndexMapEntry s n d2)" by (simp add: add_flag)
next
  assume "\<not> hasIndexWithName s n"
  then show "map_of (index_map (snd (addIndexMapEntry s n d2))) = (map_of (index_map s))(n \<mapsto> d2)"
    by (rule add_fresh_lookup)
next
  assume ok: "fst (addIndexMapEntry s n d1)"
  then have fresh: "\<not> hasIndexWithName s n" by (simp add: add_flag)
  then have has: "hasIndexWithName (snd (addIndexMapEntry s n d1)) n" by (rule add_fresh_has)
  then show again: "addIndexMapEntry (snd (addIndexMapEntry s n d1)) n d2
      = (False, snd (addIndexMapEntry s n d1))"
    by (rule add_present)
  show "map_of (index_map (snd (addIndexMapEntry (snd (addIndexMapEntry s n d1)) n d2))) n
      = Some d1"
    using fresh by (simp add: again add_fresh_lookup)
qed

text \<open>Scenario 2 of the specification: registering \<open>idx1\<close> twice.\<close>

theorem add_name_unique_witness:
  "fst (addIndexMapEntry (IndexScheme_new :: (nat, nat list) IndexScheme) ''idx1''
          [\<lparr>sub_block_type = 0, parameters = [1]\<rparr>])
   \<and> addIndexMapEntry
        (snd (addIndexMapEntry (IndexScheme_new :: (nat, nat list) IndexScheme) ''idx1''
               [\<lparr>sub_block_type = 0, parameters = [1]\<rparr>]))
        ''idx1'' [\<lparr>sub_block_type = 1, parameters = [2]\<rparr>]
      = (False, \<lparr>index_map = [(''idx1'', [\<lparr>sub_block_type = 0, parameters = [1]\<rparr>])]\<rparr>)
   \<and> \<not> hasIndexWithName (IndexScheme_new :: (nat, nat list) IndexScheme) ''idx1''
   \<and> hasIndexWithName
        (snd (addIndexMapEntry (IndexScheme_new :: (nat, nat list) IndexScheme) ''idx1''
               [\<lparr>sub_block_type = 0, parameters = [1]\<rparr>])) ''idx1''"
  using add_name_unique [of "IndexScheme_new :: (nat, nat list) IndexScheme" "''idx1''"
      "[\<lparr>sub_block_type = 1, parameters = [2]\<rparr>]" "[\<lparr>sub_block_type = 0, parameters = [1]\<rparr>]"]
  by (simp add: addIndexMapEntry_def IndexScheme_new_def hasIndexWithName_def copy_descriptions_id)

section \<open>Similarity\<close>

text \<open>
  C3. Two index descriptions are similar exactly when their sub-block types are equal,
  and replacing the remaining parameters of either description by anything else does
  not change the answer.
\<close>

theorem similar_iff_same_type:
  "areIndexDescriptionsSimilar a b = (sub_block_type a = sub_block_type b)
   \<and> areIndexDescriptionsSimilar (a\<lparr>parameters := p\<rparr>) (b\<lparr>parameters := q\<rparr>)
       = areIndexDescriptionsSimilar a b"
  by (simp add: areIndexDescriptionsSimilar_def)

text \<open>
  C4. \<open>hasIndexWithDescription\<close> returns true exactly when some entry of the map holds a
  description with the candidate's sub-block type; when the keys are unique, as in a hash
  map, this is to say that some description stored under some registered name is
  similar to the candidate. Once a sequence containing a description \<open>x\<close> has been
  registered successfully, the query is true for every candidate with the sub-block type
  of \<open>x\<close>, whatever its other parameters, and stays true after any further registration
  calls. The method is \<open>const\<close>: it is a function of the scheme and the candidate and
  returns no new scheme.
\<close>

theorem scan_finds_similar:
  "hasIndexWithDescription s c
     = (\<exists>e \<in> set (index_map s). \<exists>d \<in> set (snd e). sub_block_type d = sub_block_type c)
   \<and> (unique_keys s \<longrightarrow>
        hasIndexWithDescription s c
          = (\<exists>m ds. map_of (index_map s) m = Some ds
                \<and> (\<exists>d \<in> set ds. areIndexDescriptionsSimilar d c)))
   \<and> (fst (addIndexMapEntry s n ds) \<and> x \<in> set ds \<and> sub_block_type c = sub_block_type x \<longrightarrow>
        hasIndexWithDescription (snd (register_all (snd (addIndexMapEntry s n ds)) cs)) c)"
proof (intro conjI impI)
  show "hasIndexWithDescription s c
     = (\<exists>e \<in> set (index_map s). \<exists>d \<in> set (snd e). sub_block_type d = sub_block_type c)"
    by (simp add: hasIndexWithDescription_def scan_entries_iff similar_iff)
next
  assume u: "unique_keys s"
  show "hasIndexWithDescription s c
          = (\<exists>m ds. map_of (index_map s) m = Some ds
                \<and> (\<exists>d \<in> set ds. areIndexDescriptionsSimilar d c))"
    unfolding hasIndexWithDescription_def scan_entries_iff unique_keys_lookup [OF u]
    by force
next
  assume a: "fst (addIndexMapEntry s n ds) \<and> x \<in> set ds \<and> sub_block_type c = sub_block_type x"
  then have fresh: "\<not> hasIndexWithName s n" by (simp add: add_flag)
  have "hasIndexWithDescription (snd (addIndexMapEntry s n ds)) c"
    using a by (auto simp: add_fresh [OF fresh] hasIndexWithDescription_def scan_entries_iff similar_iff)
  then show "hasIndexWithDescription (snd (register_all (snd (addIndexMapEntry s n ds)) cs)) c"
    by (rule register_all_scan_mono)
qed

text \<open>
  Scenario 3 of the specification: two names with descriptions of the same sub-block
  type; a candidate of that type with other parameters is found, and nothing is found
  in the fresh scheme.
\<close>

theorem scan_finds_similar_witness:
  "unique_keys (IndexScheme_new :: (nat, nat list) IndexScheme)
   \<and> fst (addIndexMapEntry (IndexScheme_new :: (nat, nat list) IndexScheme) ''idx1''
            [\<lparr>sub_block_type = 0, parameters = [1]\<rparr>])
   \<and> hasIndexWithDescription
        (snd (register_all
               (snd (addIndexMapEntry (IndexScheme_new :: (nat, nat list) IndexScheme) ''idx1''
                      [\<lparr>sub_block_type = 0, parameters = [1]\<rparr>]))
               [(''idx2'', [\<lparr>sub_block_type = 0, parameters = [2]\<rparr>])]))
        \<lparr>sub_block_type = 0, parameters = [7, 8]\<rparr>
   \<and> \<not> hasIndexWithDescription (IndexScheme_new :: (nat, nat list) IndexScheme)
        \<lparr>sub_block_type = 0, parameters = [7, 8]\<rparr>"
  using scan_finds_similar [of "IndexScheme_new :: (nat, nat list) IndexScheme"
      "\<lparr>sub_block_type = 0, parameters = [7, 8]\<rparr>" "''idx1''"
      "[\<lparr>sub_block_type = 0, parameters = [1]\<rparr>]" "\<lparr>sub_block_type = 0, parameters = [1]\<rparr>"
      "[(''idx2'', [\<lparr>sub_block_type = 0, parameters = [2]\<rparr>])]"]
  by (simp add: addIndexMapEntry_def IndexScheme_new_def unique_keys_def)

section \<open>Counting\<close>

text \<open>
  C5. After any sequence of registration calls on a fresh scheme, \<open>getNumIndices\<close> is
  the number of distinct names whose registration returned true. A call that returns
  false leaves the count as it was, and a call that returns true adds one. On a fresh
  scheme the count is \<open>0\<close> and \<open>hasIndexWithName\<close> is false for every name.
\<close>

theorem count_is_distinct_succeeded:
  "getNumIndices (snd (register_all (IndexScheme_new :: ('t, 'p) IndexScheme) cs))
     = card (set (succeeded_names (IndexScheme_new :: ('t, 'p) IndexScheme) cs))
   \<and> (\<not> fst (addIndexMapEntry s n d) \<longrightarrow>
        getNumIndices (snd (addIndexMapEntry s n d)) = getNumIndices s)
   \<and> (fst (addIndexMapEntry s n d) \<longrightarrow>
        getNumIndices (snd (addIndexMapEntry s n d)) = getNumIndices s + 1)
   \<and> getNumIndices (IndexScheme_new :: ('t, 'p) IndexScheme) = 0
   \<and> \<not> hasIndexWithName (IndexScheme_new :: ('t, 'p) IndexScheme) n"
proof (intro conjI impI)
  let ?new = "IndexScheme_new :: ('t, 'p) IndexScheme"
  have keys: "map fst (index_map (snd (register_all ?new cs))) = succeeded_names ?new cs"
    using register_all_keys [of ?new cs] by (simp add: IndexScheme_new_def)
  have "unique_keys ?new"
    by (simp add: unique_keys_def IndexScheme_new_def)
  then have "unique_keys (snd (register_all ?new cs))"
    by (rule register_all_unique_keys)
  then have "distinct (succeeded_names ?new cs)"
    by (simp add: unique_keys_def keys)
  then have "card (set (succeeded_names ?new cs)) = length (succeeded_names ?new cs)"
    by (rule distinct_card)
  also have "\<dots> = length (map fst (index_map (snd (register_all ?new cs))))"
    by (simp only: keys)
  finally show "getNumIndices (snd (register_all ?new cs)) = card (set (succeeded_names ?new cs))"
    by (simp add: getNumIndices_def)
next
  assume "\<not> fst (addIndexMapEntry s n d)"
  then show "getNumIndices (snd (addIndexMapEntry s n d)) = getNumIndices s"
    by (simp add: add_flag add_present)
next
  assume "fst (addIndexMapEntry s n d)"
  then show "getNumIndices (snd (addIndexMapEntry s n d)) = getNumIndices s + 1"
    by (simp add: add_flag add_fresh getNumIndices_def)
next
  show "getNumIndices (IndexScheme_new :: ('t, 'p) IndexScheme) = 0"
    by (simp add: getNumIndices_def IndexScheme_new_def)
next
  show "\<not> hasIndexWithName (IndexScheme_new :: ('t, 'p) IndexScheme) n"
    by (simp add: hasIndexWithName_def IndexScheme_new_def)
qed

text \<open>
  Three calls, the second on a name already taken: two names succeed and the count is
  two; the failed call on a scheme with one name leaves the count at one.
\<close>

theorem count_is_distinct_succeeded_witness:
  "getNumIndices
     (snd (register_all (IndexScheme_new :: (nat, nat list) IndexScheme)
        [(''idx1'', [\<lparr>sub_block_type = 0, parameters = [1]\<rparr>]),
         (''idx1'', [\<lparr>sub_block_type = 1, parameters = [2]\<rparr>]),
         (''idx2'', [\<lparr>sub_block_type = 0, parameters = [3]\<rparr>])])) = 2
   \<and> succeeded_names (IndexScheme_new :: (nat, nat list) IndexScheme)
        [(''idx1'', [\<lparr>sub_block_type = 0, parameters = [1]\<rparr>]),
         (''idx1'', [\<lparr>sub_block_type = 1, parameters = [2]\<rparr>]),
         (''idx2'', [\<lparr>sub_block_type = 0, parameters = [3]\<rparr>])] = [''idx1'', ''idx2'']
   \<and> \<not> fst (addIndexMapEntry \<lparr>index_map = [(''idx1'', [\<lparr>sub_block_type = 0::nat, parameters = [1::nat]\<rparr>])]\<rparr>
              ''idx1'' [\<lparr>sub_block_type = 1, parameters = [2]\<rparr>])
   \<and> getNumIndices
        (snd (addIndexMapEntry \<lparr>index_map = [(''idx1'', [\<lparr>sub_block_type = 0::nat, parameters = [1::nat]\<rparr>])]\<rparr>
              ''idx1'' [\<lparr>sub_block_type = 1, parameters = [2]\<rparr>])) = 1"
  using count_is_distinct_succeeded
    [of "[(''idx1'', [\<lparr>sub_block_type = 0::nat, parameters = [1::nat]\<rparr>]),
          (''idx1'', [\<lparr>sub_block_type = 1, parameters = [2]\<rparr>]),
          (''idx2'', [\<lparr>sub_block_type = 0, parameters = [3]\<rparr>])]"
        "\<lparr>index_map = [(''idx1'', [\<lparr>sub_block_type = 0::nat, parameters = [1::nat]\<rparr>])]\<rparr>"
        "''idx1''" "[\<lparr>sub_block_type = 1, parameters = [2]\<rparr>]"]
  by (simp add: succeeded_names_def addIndexMapEntry_def IndexScheme_new_def getNumIndices_def
        copy_descriptions_id Let_def)

section \<open>What a successful registration stores\<close>

text \<open>
  C6 reads: immediately after a successful registration the sequence stored under the
  name is never empty. The header has no check on the length of the sequence it is
  given: registering \<open>idx1\<close> with the empty sequence on a fresh scheme returns true and
  stores the empty sequence.
\<close>

theorem empty_sequence_stored_counterexample:
  "fst (addIndexMapEntry (IndexScheme_new :: (nat, nat list) IndexScheme) ''idx1'' [])
   \<and> map_of (index_map
        (snd (addIndexMapEntry (IndexScheme_new :: (nat, nat list) IndexScheme) ''idx1'' [])))
        ''idx1'' = Some []"
  by (simp add: addIndexMapEntry_def IndexScheme_new_def copy_descriptions_id)

text \<open>
  C6, amended. Immediately after a successful registration of a non-empty sequence of
  descriptions under a name, the sequence stored under that name is non-empty.
\<close>

theorem nonempty_input_stored_nonempty:
  "fst (addIndexMapEntry s n d) \<Longrightarrow> d \<noteq> [] \<Longrightarrow>
     \<exists>stored. map_of (index_map (snd (addIndexMapEntry s n d))) n = Some stored \<and> stored \<noteq> []"
  by (simp add: add_flag add_fresh_lookup)

theorem nonempty_input_stored_nonempty_witness:
  "fst (addIndexMapEntry (IndexScheme_new :: (nat, nat list) IndexScheme) ''idx1''
          [\<lparr>sub_block_type = 0, parameters = [1]\<rparr>])
   \<and> [\<lparr>sub_block_type = 0::nat, parameters = [1::nat]\<rparr>] \<noteq> []
   \<and> (\<exists>stored.
         map_of (index_map
           (snd (addIndexMapEntry (IndexScheme_new :: (nat, nat list) IndexScheme) ''idx1''
                  [\<lparr>sub_block_type = 0, parameters = [1]\<rparr>]))) ''idx1'' = Some stored
         \<and> stored \<noteq> [])"
proof -
  have ok: "fst (addIndexMapEntry (IndexScheme_new :: (nat, nat list) IndexScheme) ''idx1''
          [\<lparr>sub_block_type = 0, parameters = [1]\<rparr>])"
    by (simp add: addIndexMapEntry_def IndexScheme_new_def)
  have ne: "[\<lparr>sub_block_type = 0::nat, parameters = [1::nat]\<rparr>] \<noteq> []" by simp
  from nonempty_input_stored_nonempty [OF ok ne] ok ne show ?thesis by blast
qed

text \<open>
  C7. After a successful registration of \<open>d\<close> under \<open>n\<close>, the sequence stored under
  \<open>n\<close> has the length of \<open>d\<close> and the same element at every position, and \<open>n\<close> still
  maps to \<open>d\<close> after any further sequence of registration calls.
\<close>

theorem add_stores_copy:
  "fst (addIndexMapEntry s n d) \<Longrightarrow>
     (\<exists>stored. map_of (index_map (snd (addIndexMapEntry s n d))) n = Some stored
        \<and> length stored = length d \<and> (\<forall>i < length d. stored ! i = d ! i))
     \<and> map_of (index_map (snd (register_all (snd (addIndexMapEntry s n d)) cs))) n = Some d"
proof -
  assume "fst (addIndexMapEntry s n d)"
  then have fresh: "\<not> hasIndexWithName s n" by (simp add: add_flag)
  have stored: "map_of (index_map (snd (addIndexMapEntry s n d))) n = Some d"
    by (simp add: add_fresh_lookup [OF fresh])
  from stored register_all_lookup [OF stored] show ?thesis by simp
qed

theorem add_stores_copy_witness:
  "fst (addIndexMapEntry (IndexScheme_new :: (nat, nat list) IndexScheme) ''idx1''
          [\<lparr>sub_block_type = 0, parameters = [1]\<rparr>, \<lparr>sub_block_type = 1, parameters = [2]\<rparr>])
   \<and> map_of (index_map
        (snd (register_all
          (snd (addIndexMapEntry (IndexScheme_new :: (nat, nat list) IndexScheme) ''idx1''
             [\<lparr>sub_block_type = 0, parameters = [1]\<rparr>, \<lparr>sub_block_type = 1, parameters = [2]\<rparr>]))
          [(''idx2'', [\<lparr>sub_block_type = 1, parameters = []\<rparr>]),
           (''idx1'', [\<lparr>sub_block_type = 1, parameters = [5]\<rparr>])]))) ''idx1''
      = Some [\<lparr>sub_block_type = 0, parameters = [1]\<rparr>, \<lparr>sub_block_type = 1, parameters = [2]\<rparr>]"
proof -
  have ok: "fst (addIndexMapEntry (IndexScheme_new :: (nat, nat list) IndexScheme) ''idx1''
          [\<lparr>sub_block_type = 0, parameters = [1]\<rparr>, \<lparr>sub_block_type = 1, parameters = [2]\<rparr>])"
    by (simp add: addIndexMapEntry_def IndexScheme_new_def)
  from add_stores_copy [OF ok] ok show ?thesis by blast
qed

section \<open>Registration only adds\<close>

text \<open>
  C8. Whatever a registration call is given and whether it succeeds or fails, a name
  that mapped to a sequence before the call is still a key after it and maps to the same
  sequence; the same holds across any sequence of calls. Registration is the only
  operation of the header that returns a changed scheme.
\<close>

theorem add_preserves_entries:
  "map_of (index_map s) k = Some v \<Longrightarrow>
     map_of (index_map (snd (addIndexMapEntry s n d))) k = Some v
     \<and> hasIndexWithName (snd (addIndexMapEntry s n d)) k
     \<and> map_of (index_map (snd (register_all s cs))) k = Some v
     \<and> hasIndexWithName (snd (register_all s cs)) k"
  by (simp add: add_lookup_other register_all_lookup
      hasIndexWithName_def [of "snd (addIndexMapEntry s n d)"]
      hasIndexWithName_def [of "snd (register_all s cs)"])

text \<open>The entry of \<open>idx1\<close> across a successful and across a failed call.\<close>

theorem add_preserves_entries_witness:
  "map_of (index_map (\<lparr>index_map = [(''idx1'', [\<lparr>sub_block_type = 0::nat, parameters = [1::nat]\<rparr>])]\<rparr>))
      ''idx1'' = Some [\<lparr>sub_block_type = 0, parameters = [1]\<rparr>]
   \<and> map_of (index_map (snd (addIndexMapEntry
        \<lparr>index_map = [(''idx1'', [\<lparr>sub_block_type = 0::nat, parameters = [1::nat]\<rparr>])]\<rparr>
        ''idx2'' [\<lparr>sub_block_type = 1, parameters = [2]\<rparr>]))) ''idx1''
      = Some [\<lparr>sub_block_type = 0, parameters = [1]\<rparr>]
   \<and> map_of (index_map (snd (addIndexMapEntry
        \<lparr>index_map = [(''idx1'', [\<lparr>sub_block_type = 0::nat, parameters = [1::nat]\<rparr>])]\<rparr>
        ''idx1'' [\<lparr>sub_block_type = 1, parameters = [2]\<rparr>]))) ''idx1''
      = Some [\<lparr>sub_block_type = 0, parameters = [1]\<rparr>]"
proof -
  have h: "map_of (index_map (\<lparr>index_map = [(''idx1'', [\<lparr>sub_block_type = 0::nat, parameters = [1::nat]\<rparr>])]\<rparr>))
      ''idx1'' = Some [\<lparr>sub_block_type = 0, parameters = [1]\<rparr>]"
    by simp
  from add_preserves_entries [OF h, of "''idx2''" "[\<lparr>sub_block_type = 1, parameters = [2]\<rparr>]" "[]"]
       add_preserves_entries [OF h, of "''idx1''" "[\<lparr>sub_block_type = 1, parameters = [2]\<rparr>]" "[]"]
       h
  show ?thesis by blast
qed

text \<open>
  C9. The flag returned by \<open>addIndexMapEntry\<close> depends on the presence of the name
  alone. In particular a fresh name is registered, with the sequence given, also when
  every description of the sequence is similar to one already stored.
\<close>

theorem add_ignores_similarity:
  "fst (addIndexMapEntry s n2 d) = (\<not> hasIndexWithName s n2)
   \<and> (\<not> hasIndexWithName s n2 \<and> (\<forall>x \<in> set d. hasIndexWithDescription s x) \<longrightarrow>
        fst (addIndexMapEntry s n2 d)
        \<and> map_of (index_map (snd (addIndexMapEntry s n2 d))) n2 = Some d)"
  by (simp add: add_flag add_fresh_lookup)

text \<open>
  \<open>idx2\<close> is registered with a description of the sub-block type that \<open>idx1\<close> already
  holds.
\<close>

theorem add_ignores_similarity_witness:
  "\<not> hasIndexWithName \<lparr>index_map = [(''idx1'', [\<lparr>sub_block_type = 0::nat, parameters = [1::nat]\<rparr>])]\<rparr> ''idx2''
   \<and> hasIndexWithDescription \<lparr>index_map = [(''idx1'', [\<lparr>sub_block_type = 0::nat, parameters = [1::nat]\<rparr>])]\<rparr>
        \<lparr>sub_block_type = 0, parameters = [2]\<rparr>
   \<and> fst (addIndexMapEntry \<lparr>index_map = [(''idx1'', [\<lparr>sub_block_type = 0::nat, parameters = [1::nat]\<rparr>])]\<rparr>
        ''idx2'' [\<lparr>sub_block_type = 0, parameters = [2]\<rparr>])
   \<and> map_of (index_map (snd (addIndexMapEntry
        \<lparr>index_map = [(''idx1'', [\<lparr>sub_block_type = 0::nat, parameters = [1::nat]\<rparr>])]\<rparr>
        ''idx2'' [\<lparr>sub_block_type = 0, parameters = [2]\<rparr>]))) ''idx2''
      = Some [\<lparr>sub_block_type = 0, parameters = [2]\<rparr>]"
proof -
  let ?s = "\<lparr>index_map = [(''idx1'', [\<lparr>sub_block_type = 0::nat, parameters = [1::nat]\<rparr>])]\<rparr>"
  let ?d = "[\<lparr>sub_block_type = 0::nat, parameters = [2::nat]\<rparr>]"
  have fresh: "\<not> hasIndexWithName ?s ''idx2''"
    by (simp add: hasIndexWithName_def)
  have sim: "hasIndexWithDescription ?s \<lparr>sub_block_type = 0, parameters = [2]\<rparr>"
    by (simp add: hasIndexWithDescription_def areIndexDescriptionsSimilar_def)
  then have all: "\<forall>x \<in> set ?d. hasIndexWithDescription ?s x" by simp
  from add_ignores_similarity [of ?s "''idx2''" ?d] fresh all sim show ?thesis by blast
qed

text \<open>
  C10. Registering a fresh name with the empty sequence returns true, adds one to the
  count, makes the name present with the empty sequence stored, and leaves the answer of
  \<open>hasIndexWithDescription\<close> for every candidate as it was; on a fresh scheme that
  answer is still false for every candidate.
\<close>

theorem add_empty_sequence:
  "\<not> hasIndexWithName s n \<Longrightarrow>
     fst (addIndexMapEntry s n [])
     \<and> getNumIndices (snd (addIndexMapEntry s n [])) = getNumIndices s + 1
     \<and> hasIndexWithName (snd (addIndexMapEntry s n [])) n
     \<and> map_of (index_map (snd (addIndexMapEntry s n []))) n = Some []
     \<and> hasIndexWithDescription (snd (addIndexMapEntry s n [])) c = hasIndexWithDescription s c
     \<and> \<not> hasIndexWithDescription (snd (addIndexMapEntry IndexScheme_new n [])) c"
proof -
  assume fresh: "\<not> hasIndexWithName s n"
  have "\<not> hasIndexWithDescription (snd (addIndexMapEntry IndexScheme_new n [])) c"
    by (simp add: addIndexMapEntry_def hasIndexWithDescription_def IndexScheme_new_def
          copy_descriptions_id)
  moreover have "hasIndexWithDescription (snd (addIndexMapEntry s n [])) c = hasIndexWithDescription s c"
    by (simp add: add_fresh [OF fresh] hasIndexWithDescription_def scan_entries_iff)
  moreover have "getNumIndices (snd (addIndexMapEntry s n [])) = getNumIndices s + 1"
    by (simp add: add_fresh [OF fresh] getNumIndices_def)
  ultimately show ?thesis
    using fresh by (simp add: add_flag add_fresh_has add_fresh_lookup)
qed

theorem add_empty_sequence_witness:
  "\<not> hasIndexWithName \<lparr>index_map = [(''idx1'', [\<lparr>sub_block_type = 0::nat, parameters = [1::nat]\<rparr>])]\<rparr> ''idx2''
   \<and> fst (addIndexMapEntry \<lparr>index_map = [(''idx1'', [\<lparr>sub_block_type = 0::nat, parameters = [1::nat]\<rparr>])]\<rparr>
        ''idx2'' [])
   \<and> getNumIndices (snd (addIndexMapEntry
        \<lparr>index_map = [(''idx1'', [\<lparr>sub_block_type = 0::nat, parameters = [1::nat]\<rparr>])]\<rparr> ''idx2'' [])) = 2
   \<and> hasIndexWithName (snd (addIndexMapEntry
        \<lparr>index_map = [(''idx1'', [\<lparr>sub_block_type = 0::nat, parameters = [1::nat]\<rparr>])]\<rparr> ''idx2'' [])) ''idx2''
   \<and> \<not> hasIndexWithDescription (snd (addIndexMapEntry
        \<lparr>index_map = [(''idx1'', [\<lparr>sub_block_type = 0::nat, parameters = [1::nat]\<rparr>])]\<rparr> ''idx2'' []))
        \<lparr>sub_block_type = 1, parameters = [1]\<rparr>"
proof -
  let ?s = "\<lparr>index_map = [(''idx1'', [\<lparr>sub_block_type = 0::nat, parameters = [1::nat]\<rparr>])]\<rparr>"
  have fresh: "\<not> hasIndexWithName ?s ''idx2''"
    by (simp add: hasIndexWithName_def)
  have n: "getNumIndices ?s = 1" by (simp add: getNumIndices_def)
  have no: "\<not> hasIndexWithDescription ?s \<lparr>sub_block_type = 1, parameters = [1]\<rparr>"
    by (simp add: hasIndexWithDescription_def areIndexDescriptionsSimilar_def)
  from add_empty_sequence [OF fresh, of "\<lparr>sub_block_type = 1, parameters = [1]\<rparr>"] fresh n no
  show ?thesis by simp
qed

end
